theory Spec2Isabelle
  imports Complex_Main
begin

section \<open>JavaScript values used by the editor\<close>

text \<open>
  A TypeScript \<open>number\<close> is modelled as an exact rational: every finite integer and
  fraction the editor can be handed is there, so the validation tests (\<open>< 0\<close>,
  \<open>Number.isInteger\<close>) and the truncation done by \<open>substring\<close> are those of the code.
  Sums and differences are exact here, while the code rounds them as doubles: the two
  agree on integers below \<open>2^53\<close> and can part on fractions. Every theorem below that
  depends on cursor arithmetic is therefore stated for an integer cursor, \<open>of_nat c\<close>.
  \<open>NaN\<close> and the infinities are outside the model.
  A \<open>string\<close> is the list of its code units, so \<open>length\<close> is \<open>.length\<close>.
\<close>

type_synonym number = rat

definition isInteger :: "number \<Rightarrow> bool" where
  \<comment> \<open>\<open>Number.isInteger\<close>\<close>
  "isInteger x = (of_int \<lfloor>x\<rfloor> = x)"

definition ToIntegerOrInfinity :: "number \<Rightarrow> int" where
  \<comment> \<open>truncation towards zero, as \<open>String.prototype.substring\<close> applies to its arguments\<close>
  "ToIntegerOrInfinity x = (if x < 0 then \<lceil>x\<rceil> else \<lfloor>x\<rfloor>)"

definition substring :: "string \<Rightarrow> number \<Rightarrow> number \<Rightarrow> string" where
  \<comment> \<open>\<open>s.substring(start, stop)\<close>: both ends clamped to \<open>[0, length]\<close>, swapped when out of order\<close>
  "substring s start stop =
     (let len = int (length s);
          finalStart = min (max (ToIntegerOrInfinity start) 0) len;
          finalEnd = min (max (ToIntegerOrInfinity stop) 0) len;
          lo = min finalStart finalEnd;
          hi = max finalStart finalEnd
      in take (nat (hi - lo)) (drop (nat lo) s))"

definition substring_from :: "string \<Rightarrow> number \<Rightarrow> string" where
  \<comment> \<open>\<open>s.substring(start)\<close>: the end defaults to the length\<close>
  "substring_from s start = substring s start (of_nat (length s))"

definition slice :: "'a list \<Rightarrow> int \<Rightarrow> int \<Rightarrow> 'a list" where
  \<comment> \<open>\<open>xs.slice(start, stop)\<close>: a negative bound counts from the end\<close>
  "slice xs start stop =
     (let len = int (length xs);
          k = (if start < 0 then max (len + start) 0 else min start len);
          final = (if stop < 0 then max (len + stop) 0 else min stop len)
      in take (nat (max (final - k) 0)) (drop (nat k) xs))"

definition array_get :: "'a list \<Rightarrow> int \<Rightarrow> 'a option" where
  \<comment> \<open>\<open>xs[i]\<close>: \<open>undefined\<close> (here \<open>None\<close>) outside \<open>0 .. length - 1\<close>\<close>
  "array_get xs i = (if 0 \<le> i \<and> i < int (length xs) then Some (xs ! nat i) else None)"

datatype error = Error string | TypeError

section \<open>EditorSnapshot, the memento\<close>

text \<open>
  The four private fields are read through their getters only, so the record's selectors
  carry the getters' names. \<open>getTimestamp\<close> holds the clock reading of \<open>new Date()\<close> in
  milliseconds; the functions that build a snapshot receive it as \<open>now\<close>.
\<close>

record EditorSnapshot =
  getContent :: string
  getCursorPosition :: number
  getFontSize :: number
  getTimestamp :: int

definition new_EditorSnapshot :: "string \<Rightarrow> number \<Rightarrow> number \<Rightarrow> int \<Rightarrow> EditorSnapshot" where
  \<comment> \<open>\<open>TextEditor.ts\<close>: the constructor stores its arguments unchecked\<close>
  "new_EditorSnapshot c p f now =
     \<lparr>getContent = c, getCursorPosition = p, getFontSize = f, getTimestamp = now\<rparr>"

definition new_EditorSnapshot_v ::
  "string \<Rightarrow> number \<Rightarrow> number \<Rightarrow> int \<Rightarrow> error + EditorSnapshot" where
  \<comment> \<open>\<open>src/models/editorSnapshot.ts\<close>: the constructor validates, logs and rethrows\<close>
  "new_EditorSnapshot_v c p f now =
     (if p < 0 \<or> \<not> isInteger p then Inl (Error ''Invalid cursor position'')
      else if f \<le> 0 \<or> \<not> isInteger f then Inl (Error ''Invalid font size'')
      else Inr \<lparr>getContent = c, getCursorPosition = p, getFontSize = f, getTimestamp = now\<rparr>)"

definition isValid :: "EditorSnapshot \<Rightarrow> bool" where
  "isValid s = (getCursorPosition s \<ge> 0 \<and> getFontSize s > 0)"

section \<open>TextEditor, the originator\<close>

record TextEditor =
  content :: string
  cursorPosition :: number
  fontSize :: number

definition new_TextEditor :: TextEditor where
  "new_TextEditor = \<lparr>content = '''', cursorPosition = 0, fontSize = 12\<rparr>"

subsection \<open>\<open>TextEditor.ts\<close>: the editor without validation\<close>

definition "write" :: "TextEditor \<Rightarrow> string \<Rightarrow> TextEditor" where
  "write ed text =
     (let before = substring (content ed) 0 (cursorPosition ed);
          after = substring_from (content ed) (cursorPosition ed)
      in ed\<lparr>content := before @ text @ after,
            cursorPosition := cursorPosition ed + of_nat (length text)\<rparr>)"

definition delete :: "TextEditor \<Rightarrow> number \<Rightarrow> TextEditor" where
  "delete ed count =
     (if cursorPosition ed \<ge> count then
        (let before = substring (content ed) 0 (cursorPosition ed - count);
             after = substring_from (content ed) (cursorPosition ed)
         in ed\<lparr>content := before @ after, cursorPosition := cursorPosition ed - count\<rparr>)
      else ed)"

definition setCursor :: "TextEditor \<Rightarrow> number \<Rightarrow> TextEditor" where
  "setCursor ed position =
     ed\<lparr>cursorPosition := max 0 (min position (of_nat (length (content ed))))\<rparr>"

definition setFontSize :: "TextEditor \<Rightarrow> number \<Rightarrow> TextEditor" where
  "setFontSize ed sz = ed\<lparr>fontSize := sz\<rparr>"

definition createSnapshot :: "TextEditor \<Rightarrow> int \<Rightarrow> EditorSnapshot" where
  "createSnapshot ed now = new_EditorSnapshot (content ed) (cursorPosition ed) (fontSize ed) now"

definition restore :: "TextEditor \<Rightarrow> EditorSnapshot \<Rightarrow> TextEditor" where
  "restore ed snapshot =
     ed\<lparr>content := getContent snapshot,
        cursorPosition := getCursorPosition snapshot,
        fontSize := getFontSize snapshot\<rparr>"

subsection \<open>\<open>src/models/textEditor.ts\<close>: the editor with validation\<close>

text \<open>
  Each mutator returns the editor after the call together with its outcome: \<open>Inl\<close> the
  error it throws, \<open>Inr ()\<close> when it returns. A string argument is never absent, so
  \<open>!text\<close> is the test for the empty string. Every \<open>catch\<close> block logs and rethrows
  the error it caught; console output is not part of the state.
\<close>

definition write_v :: "TextEditor \<Rightarrow> string \<Rightarrow> TextEditor \<times> (error + unit)" where
  "write_v ed text =
     (if text = [] then (ed, Inl (Error ''Invalid text input''))
      else
        (let before = substring (content ed) 0 (cursorPosition ed);
             after = substring_from (content ed) (cursorPosition ed)
         in (ed\<lparr>content := before @ text @ after,
                cursorPosition := cursorPosition ed + of_nat (length text)\<rparr>, Inr ())))"

definition delete_v :: "TextEditor \<Rightarrow> number \<Rightarrow> TextEditor \<times> (error + unit)" where
  "delete_v ed count =
     (if count < 0 \<or> \<not> isInteger count then (ed, Inl (Error ''Invalid delete count''))
      else if cursorPosition ed \<ge> count then
        (let before = substring (content ed) 0 (cursorPosition ed - count);
             after = substring_from (content ed) (cursorPosition ed)
         in (ed\<lparr>content := before @ after, cursorPosition := cursorPosition ed - count\<rparr>,
             Inr ()))
      else (ed, Inr ()))"

definition setCursor_v :: "TextEditor \<Rightarrow> number \<Rightarrow> TextEditor \<times> (error + unit)" where
  "setCursor_v ed position =
     (if position < 0 \<or> \<not> isInteger position
      then (ed, Inl (Error ''Invalid cursor position''))
      else (ed\<lparr>cursorPosition := max 0 (min position (of_nat (length (content ed))))\<rparr>,
            Inr ()))"

definition setFontSize_v :: "TextEditor \<Rightarrow> number \<Rightarrow> TextEditor \<times> (error + unit)" where
  "setFontSize_v ed sz =
     (if sz \<le> 0 \<or> \<not> isInteger sz then (ed, Inl (Error ''Invalid font size''))
      else (ed\<lparr>fontSize := sz\<rparr>, Inr ()))"

definition createSnapshot_v :: "TextEditor \<Rightarrow> int \<Rightarrow> error + EditorSnapshot" where
  "createSnapshot_v ed now =
     new_EditorSnapshot_v (content ed) (cursorPosition ed) (fontSize ed) now"

definition restore_v ::
  "TextEditor \<Rightarrow> EditorSnapshot option \<Rightarrow> TextEditor \<times> (error + unit)" where
  \<comment> \<open>\<open>None\<close> is an absent snapshot (\<open>undefined\<close>)\<close>
  "restore_v ed snapshot =
     (case snapshot of
        None \<Rightarrow> (ed, Inl (Error ''Invalid snapshot''))
      | Some s \<Rightarrow>
          (ed\<lparr>content := getContent s,
              cursorPosition := getCursorPosition s,
              fontSize := getFontSize s\<rparr>, Inr ()))"

section \<open>HistoryManager, the caretaker\<close>

text \<open>
  \<open>currentIndex\<close> starts at \<open>-1\<close> and only ever moves by whole steps;
  \<open>maxHistorySize\<close> is \<open>50\<close> unless \<open>setMaxHistorySize\<close> stored a validated
  integer: both are integers.
\<close>

record HistoryManager =
  snapshots :: "EditorSnapshot list"
  currentIndex :: int
  maxHistorySize :: int

definition new_HistoryManager :: HistoryManager where
  "new_HistoryManager = \<lparr>snapshots = [], currentIndex = - 1, maxHistorySize = 50\<rparr>"

subsection \<open>\<open>HistoryManager.ts\<close>: the caretaker without validation\<close>

definition saveState :: "HistoryManager \<Rightarrow> TextEditor \<Rightarrow> int \<Rightarrow> HistoryManager" where
  "saveState h editor now =
     (let kept = slice (snapshots h) 0 (currentIndex h + 1);
          snapshot = createSnapshot editor now;
          pushed = kept @ [snapshot]
      in if int (length pushed) > maxHistorySize h
         then h\<lparr>snapshots := tl pushed\<rparr>
         else h\<lparr>snapshots := pushed, currentIndex := currentIndex h + 1\<rparr>)"

definition undo ::
  "HistoryManager \<Rightarrow> TextEditor \<Rightarrow> HistoryManager \<times> TextEditor \<times> (error + bool)" where
  \<comment> \<open>reading past the array gives \<open>undefined\<close>, on which \<open>restore\<close> throws a TypeError
      before it assigns anything\<close>
  "undo h editor =
     (if currentIndex h > 0 then
        (let h' = h\<lparr>currentIndex := currentIndex h - 1\<rparr>
         in case array_get (snapshots h') (currentIndex h') of
              None \<Rightarrow> (h', editor, Inl TypeError)
            | Some snapshot \<Rightarrow> (h', restore editor snapshot, Inr True))
      else (h, editor, Inr False))"

definition redo ::
  "HistoryManager \<Rightarrow> TextEditor \<Rightarrow> HistoryManager \<times> TextEditor \<times> (error + bool)" where
  "redo h editor =
     (if currentIndex h < int (length (snapshots h)) - 1 then
        (let h' = h\<lparr>currentIndex := currentIndex h + 1\<rparr>
         in case array_get (snapshots h') (currentIndex h') of
              None \<Rightarrow> (h', editor, Inl TypeError)
            | Some snapshot \<Rightarrow> (h', restore editor snapshot, Inr True))
      else (h, editor, Inr False))"

definition canUndo :: "HistoryManager \<Rightarrow> bool" where
  "canUndo h = (currentIndex h > 0)"

definition canRedo :: "HistoryManager \<Rightarrow> bool" where
  "canRedo h = (currentIndex h < int (length (snapshots h)) - 1)"

definition clearHistory :: "HistoryManager \<Rightarrow> HistoryManager" where
  "clearHistory h = h\<lparr>snapshots := [], currentIndex := - 1\<rparr>"

subsection \<open>\<open>src/managers/historyManager.ts\<close>: the caretaker with validation\<close>

text \<open>
  \<open>saveState\<close> rethrows, so it returns the caretaker as the throw leaves it; \<open>undo\<close> and
  \<open>redo\<close> catch every error and answer \<open>false\<close>, after the index has already moved.
  The editor handed to a method is an object of type \<open>TextEditor\<close>, so the \<open>!editor\<close>
  guards never fire.
\<close>

definition saveState_v ::
  "HistoryManager \<Rightarrow> TextEditor \<Rightarrow> int \<Rightarrow> HistoryManager \<times> (error + unit)" where
  "saveState_v h editor now =
     (let h1 = h\<lparr>snapshots := slice (snapshots h) 0 (currentIndex h + 1)\<rparr>
      in case createSnapshot_v editor now of
           Inl e \<Rightarrow> (h1, Inl e)
         | Inr snapshot \<Rightarrow>
             if \<not> isValid snapshot then (h1, Inl (Error ''Invalid snapshot created''))
             else
               (let h2 = h1\<lparr>snapshots := snapshots h1 @ [snapshot]\<rparr>
                in if int (length (snapshots h2)) > maxHistorySize h2
                   then (h2\<lparr>snapshots := tl (snapshots h2)\<rparr>, Inr ())
                   else (h2\<lparr>currentIndex := currentIndex h2 + 1\<rparr>, Inr ())))"

definition undo_v :: "HistoryManager \<Rightarrow> TextEditor \<Rightarrow> HistoryManager \<times> TextEditor \<times> bool" where
  "undo_v h editor =
     (if currentIndex h > 0 then
        (let h' = h\<lparr>currentIndex := currentIndex h - 1\<rparr>
         in case array_get (snapshots h') (currentIndex h') of
              None \<Rightarrow> (h', editor, False)
            | Some snapshot \<Rightarrow>
                if \<not> isValid snapshot then (h', editor, False)
                else (case restore_v editor (Some snapshot) of
                        (editor', Inl e) \<Rightarrow> (h', editor', False)
                      | (editor', Inr u) \<Rightarrow> (h', editor', True)))
      else (h, editor, False))"

definition redo_v :: "HistoryManager \<Rightarrow> TextEditor \<Rightarrow> HistoryManager \<times> TextEditor \<times> bool" where
  "redo_v h editor =
     (if currentIndex h < int (length (snapshots h)) - 1 then
        (let h' = h\<lparr>currentIndex := currentIndex h + 1\<rparr>
         in case array_get (snapshots h') (currentIndex h') of
              None \<Rightarrow> (h', editor, False)
            | Some snapshot \<Rightarrow>
                if \<not> isValid snapshot then (h', editor, False)
                else (case restore_v editor (Some snapshot) of
                        (editor', Inl e) \<Rightarrow> (h', editor', False)
                      | (editor', Inr u) \<Rightarrow> (h', editor', True)))
      else (h, editor, False))"

definition setMaxHistorySize :: "HistoryManager \<Rightarrow> number \<Rightarrow> HistoryManager \<times> (error + unit)" where
  "setMaxHistorySize h sz =
     (if sz \<le> 0 \<or> \<not> isInteger sz then (h, Inl (Error ''Invalid history size''))
      else
        (let h1 = h\<lparr>maxHistorySize := \<lfloor>sz\<rfloor>\<rparr>
         in if int (length (snapshots h1)) > \<lfloor>sz\<rfloor> then
              (let excess = int (length (snapshots h1)) - \<lfloor>sz\<rfloor>
               in (h1\<lparr>snapshots := drop (nat excess) (snapshots h1),
                      currentIndex := max 0 (currentIndex h1 - excess)\<rparr>, Inr ()))
            else (h1, Inr ())))"

section \<open>Sessions: sequences of calls\<close>

text \<open>
  A client of \<open>HistoryManager.ts\<close> and \<open>TextEditor.ts\<close> holds one caretaker and one
  editor and calls their methods one after the other. An uncaught error ends the run.
\<close>

datatype command =
    Write string | Delete number | SetCursor number | SetFontSize number
  | SaveState int | Undo | Redo | ClearHistory

fun step :: "command \<Rightarrow> HistoryManager \<times> TextEditor \<Rightarrow> error + HistoryManager \<times> TextEditor" where
  "step (Write t) (h, ed) = Inr (h, write ed t)"
| "step (Delete n) (h, ed) = Inr (h, delete ed n)"
| "step (SetCursor p) (h, ed) = Inr (h, setCursor ed p)"
| "step (SetFontSize f) (h, ed) = Inr (h, setFontSize ed f)"
| "step (SaveState now) (h, ed) = Inr (saveState h ed now, ed)"
| "step Undo (h, ed) =
     (case undo h ed of (h', ed', Inl e) \<Rightarrow> Inl e | (h', ed', Inr b) \<Rightarrow> Inr (h', ed'))"
| "step Redo (h, ed) =
     (case redo h ed of (h', ed', Inl e) \<Rightarrow> Inl e | (h', ed', Inr b) \<Rightarrow> Inr (h', ed'))"
| "step ClearHistory (h, ed) = Inr (clearHistory h, ed)"

fun run :: "command list \<Rightarrow> HistoryManager \<times> TextEditor \<Rightarrow> error + HistoryManager \<times> TextEditor" where
  "run [] s = Inr s"
| "run (c # cs) s = (case step c s of Inl e \<Rightarrow> Inl e | Inr s' \<Rightarrow> run cs s')"

fun saveStates :: "(TextEditor \<times> int) list \<Rightarrow> HistoryManager \<Rightarrow> HistoryManager" where
  \<comment> \<open>successive \<open>saveState\<close> calls, the editor free to change between them\<close>
  "saveStates [] h = h"
| "saveStates ((ed, now) # rest) h = saveStates rest (saveState h ed now)"

fun saveStates_v ::
  "(TextEditor \<times> int) list \<Rightarrow> HistoryManager \<Rightarrow> HistoryManager \<times> (error + unit)" where
  \<comment> \<open>the same calls on \<open>src/managers/historyManager.ts\<close>, ended by the first throw\<close>
  "saveStates_v [] h = (h, Inr ())"
| "saveStates_v ((ed, now) # rest) h =
     (case saveState_v h ed now of
        (h', Inl e) \<Rightarrow> (h', Inl e)
      | (h', Inr u) \<Rightarrow> saveStates_v rest h')"

section \<open>Invariants of the data model\<close>

definition cursor_in_text :: "TextEditor \<Rightarrow> bool" where
  \<comment> \<open>the document invariant: \<open>cursorOffset\<close> is an integer and
      \<open>0 \<le> cursorOffset \<le> length(text)\<close>\<close>
  "cursor_in_text ed =
     (isInteger (cursorPosition ed) \<and> 0 \<le> cursorPosition ed \<and>
      cursorPosition ed \<le> of_nat (length (content ed)))"

definition capturable :: "TextEditor \<Rightarrow> bool" where
  \<comment> \<open>the fields pass the validation of the snapshot constructor\<close>
  "capturable ed =
     (0 \<le> cursorPosition ed \<and> isInteger (cursorPosition ed) \<and>
      0 < fontSize ed \<and> isInteger (fontSize ed))"

definition ledger_inv :: "HistoryManager \<Rightarrow> bool" where
  \<comment> \<open>\<open>currentIndex\<close> is \<open>-1\<close> on an empty history and a valid position otherwise, and the
      history holds at most \<open>maxHistorySize\<close> snapshots\<close>
  "ledger_inv h =
     ((snapshots h = [] \<and> currentIndex h = - 1 \<or>
       0 \<le> currentIndex h \<and> currentIndex h < int (length (snapshots h))) \<and>
      int (length (snapshots h)) \<le> maxHistorySize h \<and> 0 < maxHistorySize h)"

definition at_newest :: "HistoryManager \<Rightarrow> bool" where
  \<comment> \<open>\<open>currentIndex\<close> is the last position: there is no redo branch\<close>
  "at_newest h = (currentIndex h = int (length (snapshots h)) - 1)"

section \<open>Numbers and substrings\<close>

lemma isInteger_of_nat: "isInteger (of_nat n)"
  by (simp add: isInteger_def)

lemma isInteger_of_int: "isInteger (of_int n)"
  by (simp add: isInteger_def)

lemma nonneg_integer_is_nat:
  assumes "0 \<le> x" and "isInteger x"
  shows "x = of_nat (nat \<lfloor>x\<rfloor>)"
proof -
  have "0 \<le> \<lfloor>x\<rfloor>" using assms(1) by simp
  then have "(of_nat (nat \<lfloor>x\<rfloor>) :: rat) = of_int \<lfloor>x\<rfloor>" by simp
  also have "\<dots> = x" using assms(2) unfolding isInteger_def .
  finally show ?thesis by simp
qed

lemma fraction_not_integer:
  assumes "of_int k < x" and "x < of_int k + 1"
  shows "\<not> isInteger x"
proof
  assume "isInteger x"
  then have "of_int \<lfloor>x\<rfloor> = x" by (simp only: isInteger_def)
  moreover have "\<lfloor>x\<rfloor> = k" using assms by (simp add: floor_eq_iff)
  ultimately show False using assms(1) by simp
qed

lemma substring_prefix:
  assumes "0 \<le> a"
  shows "substring s 0 a = take (nat \<lfloor>a\<rfloor>) s"
proof -
  have "0 \<le> \<lfloor>a\<rfloor>" using assms by simp
  then show ?thesis using assms
    by (simp add: substring_def ToIntegerOrInfinity_def Let_def min_def max_def)
qed

lemma substring_from_drop:
  assumes "0 \<le> a"
  shows "substring_from s a = drop (nat \<lfloor>a\<rfloor>) s"
proof -
  have "0 \<le> \<lfloor>a\<rfloor>" using assms by simp
  then show ?thesis using assms
    by (auto simp add: substring_from_def substring_def ToIntegerOrInfinity_def Let_def
        min_def max_def)
qed

section \<open>The editor\<close>

lemma write_at_cursor:
  assumes "0 \<le> cursorPosition ed"
  shows "write ed text =
    ed\<lparr>content := take (nat \<lfloor>cursorPosition ed\<rfloor>) (content ed) @ text @
                     drop (nat \<lfloor>cursorPosition ed\<rfloor>) (content ed),
       cursorPosition := cursorPosition ed + of_nat (length text)\<rparr>"
  using assms by (simp add: write_def substring_prefix substring_from_drop)

lemma delete_before_cursor:
  assumes "count \<le> cursorPosition ed" and "0 \<le> cursorPosition ed"
  shows "delete ed count =
    ed\<lparr>content := take (nat \<lfloor>cursorPosition ed - count\<rfloor>) (content ed) @
                     drop (nat \<lfloor>cursorPosition ed\<rfloor>) (content ed),
       cursorPosition := cursorPosition ed - count\<rparr>"
  using assms by (simp add: delete_def substring_prefix substring_from_drop)

lemma write_delete_roundtrip:
  assumes "cursor_in_text ed"
  shows "delete (write ed text) (of_nat (length text)) = ed"
proof -
  let ?c = "nat \<lfloor>cursorPosition ed\<rfloor>"
  have lo: "0 \<le> cursorPosition ed"
    and hi: "cursorPosition ed \<le> of_nat (length (content ed))"
    using assms by (simp_all add: cursor_in_text_def)
  have c: "?c \<le> length (content ed)"
    using lo hi by (metis floor_of_nat floor_mono nat_int nat_mono)
  have nonneg: "0 \<le> \<lfloor>cursorPosition ed\<rfloor>"
    using lo by simp
  have w: "write ed text =
      ed\<lparr>content := take ?c (content ed) @ text @ drop ?c (content ed),
         cursorPosition := cursorPosition ed + of_nat (length text)\<rparr>"
    using lo by (rule write_at_cursor)
  have fl: "nat \<lfloor>cursorPosition ed + of_nat (length text)\<rfloor> = ?c + length text"
    using nonneg by (simp add: nat_add_distrib)
  have "delete (write ed text) (of_nat (length text)) =
     (write ed text)\<lparr>content := take ?c (content (write ed text)) @
          drop (?c + length text) (content (write ed text)),
       cursorPosition := cursorPosition ed\<rparr>"
    using lo fl by (simp add: delete_before_cursor w)
  also have "\<dots> = ed"
    using c by (simp add: w)
  finally show ?thesis .
qed

lemma write_keeps_fontSize: "fontSize (write ed text) = fontSize ed"
  by (simp add: write_def Let_def)

lemma delete_keeps_fontSize: "fontSize (delete ed count) = fontSize ed"
  by (simp add: delete_def Let_def)

lemma write_v_accepts: "text \<noteq> [] \<Longrightarrow> write_v ed text = (write ed text, Inr ())"
  by (simp add: write_v_def write_def Let_def)

lemma delete_v_accepts:
  "0 \<le> count \<Longrightarrow> isInteger count \<Longrightarrow> delete_v ed count = (delete ed count, Inr ())"
  by (simp add: delete_v_def delete_def Let_def)

lemma delete_v_rejects:
  "count < 0 \<or> \<not> isInteger count \<Longrightarrow>
   delete_v ed count = (ed, Inl (Error ''Invalid delete count''))"
  by (simp add: delete_v_def)

lemma delete_v_fails_iff:
  "(\<exists>e. snd (delete_v ed count) = Inl e) = (count < 0 \<or> \<not> isInteger count)"
  by (auto simp: delete_v_def Let_def)

lemma delete_nat_before_cursor:
  assumes "cursorPosition ed = of_nat c" and "n \<le> c"
  shows "delete ed (of_nat n) =
    ed\<lparr>content := take (c - n) (content ed) @ drop c (content ed),
       cursorPosition := of_nat (c - n)\<rparr>"
proof -
  have le: "(of_nat n :: rat) \<le> cursorPosition ed"
    using assms by simp
  have diff: "cursorPosition ed - of_nat n = of_nat (c - n)"
    using assms by (simp add: of_nat_diff)
  have "delete ed (of_nat n) =
    ed\<lparr>content := take (nat \<lfloor>cursorPosition ed - of_nat n\<rfloor>) (content ed) @
                     drop (nat \<lfloor>cursorPosition ed\<rfloor>) (content ed),
       cursorPosition := cursorPosition ed - of_nat n\<rparr>"
    using le assms(1) by (intro delete_before_cursor) simp_all
  then show ?thesis
    unfolding diff using assms(1) by simp
qed

lemma delete_past_start:
  assumes "cursorPosition ed < count"
  shows "delete ed count = ed"
  using assms by (simp add: delete_def)

lemma setCursor_v_fails_iff:
  "(\<exists>e. snd (setCursor_v ed position) = Inl e) = (position < 0 \<or> \<not> isInteger position)"
  by (auto simp: setCursor_v_def)

lemma setCursor_v_accepts:
  assumes "0 \<le> position" and "isInteger position"
  shows "setCursor_v ed position =
    (ed\<lparr>cursorPosition := min position (of_nat (length (content ed)))\<rparr>, Inr ())"
proof -
  have "(0::rat) \<le> min position (of_nat (length (content ed)))"
    using assms(1) by simp
  then show ?thesis
    using assms by (simp add: setCursor_v_def max_absorb2)
qed

lemma new_EditorSnapshot_v_Inr:
  assumes "new_EditorSnapshot_v c p f now = Inr s"
  shows "s = new_EditorSnapshot c p f now \<and> 0 \<le> p \<and> isInteger p \<and> 0 < f \<and> isInteger f"
  using assms by (auto simp: new_EditorSnapshot_v_def new_EditorSnapshot_def split: if_splits)

lemma createSnapshot_v_capturable:
  "capturable ed \<Longrightarrow> createSnapshot_v ed now = Inr (createSnapshot ed now)"
  by (simp add: capturable_def createSnapshot_v_def createSnapshot_def
      new_EditorSnapshot_v_def new_EditorSnapshot_def)

lemma createSnapshot_isValid:
  "capturable ed \<Longrightarrow> isValid (createSnapshot ed now)"
  by (simp add: capturable_def createSnapshot_def new_EditorSnapshot_def isValid_def)

lemma restore_createSnapshot: "restore ed (createSnapshot ed now) = ed"
  by (simp add: restore_def createSnapshot_def new_EditorSnapshot_def)

lemma createSnapshot_restore:
  "createSnapshot (restore ed c) now =
     c\<lparr>getTimestamp := now\<rparr>"
  by (simp add: restore_def createSnapshot_def new_EditorSnapshot_def)

lemma validating_mutators_keep_cursor:
  assumes "cursorPosition ed = of_nat c" and "c \<le> length (content ed)"
  shows "\<exists>c'. cursorPosition (fst (write_v ed text)) = of_nat c' \<and>
              c' \<le> length (content (fst (write_v ed text)))"
    and "\<exists>c'. cursorPosition (fst (delete_v ed count)) = of_nat c' \<and>
              c' \<le> length (content (fst (delete_v ed count)))"
    and "\<exists>c'. cursorPosition (fst (setCursor_v ed position)) = of_nat c' \<and>
              c' \<le> length (content (fst (setCursor_v ed position)))"
    and "\<exists>c'. cursorPosition (fst (setFontSize_v ed sz)) = of_nat c' \<and>
              c' \<le> length (content (fst (setFontSize_v ed sz)))"
proof -
  have lo: "0 \<le> cursorPosition ed"
    using assms(1) by simp
  show "\<exists>c'. cursorPosition (fst (write_v ed text)) = of_nat c' \<and>
              c' \<le> length (content (fst (write_v ed text)))"
  proof (cases "text = []")
    case True
    then show ?thesis using assms by (auto simp: write_v_def)
  next
    case False
    have "cursorPosition (write ed text) = of_nat (c + length text) \<and>
        c + length text \<le> length (content (write ed text))"
      using assms by (simp add: write_at_cursor [OF lo])
    then show ?thesis
      using False by (intro exI [of _ "c + length text"]) (simp add: write_v_accepts)
  qed
  show "\<exists>c'. cursorPosition (fst (delete_v ed count)) = of_nat c' \<and>
              c' \<le> length (content (fst (delete_v ed count)))"
  proof (cases "count < 0 \<or> \<not> isInteger count")
    case True
    then show ?thesis using assms by (auto simp: delete_v_rejects)
  next
    case False
    then have n: "count = of_nat (nat \<lfloor>count\<rfloor>)"
      using nonneg_integer_is_nat [of count] by simp
    let ?n = "nat \<lfloor>count\<rfloor>"
    have acc: "delete_v ed count = (delete ed (of_nat ?n), Inr ())"
      using False n by (simp add: delete_v_accepts)
    show ?thesis
    proof (cases "?n \<le> c")
      case True
      show ?thesis
        unfolding acc using assms(2) True
        by (intro exI [of _ "c - ?n"])
          (simp add: delete_nat_before_cursor [OF assms(1) True])
    next
      case False
      then have "cursorPosition ed < of_nat ?n"
        using assms(1) by simp
      then show ?thesis
        unfolding acc using assms by (auto simp add: delete_past_start)
    qed
  qed
  show "\<exists>c'. cursorPosition (fst (setCursor_v ed position)) = of_nat c' \<and>
              c' \<le> length (content (fst (setCursor_v ed position)))"
  proof (cases "position < 0 \<or> \<not> isInteger position")
    case True
    then show ?thesis using assms by (auto simp: setCursor_v_def)
  next
    case False
    then have p: "position = of_nat (nat \<lfloor>position\<rfloor>)"
      using nonneg_integer_is_nat [of position] by simp
    have "min position (of_nat (length (content ed))) =
        (of_nat (min (nat \<lfloor>position\<rfloor>) (length (content ed))) :: rat)"
      by (subst p) (simp add: min_def)
    then show ?thesis
      using False by (auto simp add: setCursor_v_accepts)
  qed
  show "\<exists>c'. cursorPosition (fst (setFontSize_v ed sz)) = of_nat c' \<and>
              c' \<le> length (content (fst (setFontSize_v ed sz)))"
    using assms by (auto simp: setFontSize_v_def)
qed

section \<open>The caretaker\<close>

lemma slice_prefix:
  assumes "- 1 \<le> i"
  shows "slice xs 0 (i + 1) = take (nat (i + 1)) xs"
  using assms by (simp add: slice_def Let_def min_def max_def)

lemma ledger_inv_bounds:
  assumes "ledger_inv h"
  shows "- 1 \<le> currentIndex h"
    and "currentIndex h + 1 \<le> int (length (snapshots h))"
    and "int (length (snapshots h)) \<le> maxHistorySize h"
    and "0 < maxHistorySize h"
  using assms by (auto simp: ledger_inv_def)

lemma new_HistoryManager_inv: "ledger_inv new_HistoryManager \<and> at_newest new_HistoryManager"
  by (simp add: ledger_inv_def at_newest_def new_HistoryManager_def)

lemma saveState_unfold:
  assumes "ledger_inv h"
  shows "saveState h ed now =
    (if currentIndex h + 1 = maxHistorySize h
     then h\<lparr>snapshots :=
              tl (take (nat (currentIndex h + 1)) (snapshots h)) @ [createSnapshot ed now]\<rparr>
     else h\<lparr>snapshots :=
              take (nat (currentIndex h + 1)) (snapshots h) @ [createSnapshot ed now],
            currentIndex := currentIndex h + 1\<rparr>)"
proof -
  note b = ledger_inv_bounds [OF assms]
  have len: "int (length (take (nat (currentIndex h + 1)) (snapshots h))) = currentIndex h + 1"
    using b(1,2) by simp
  have k: "slice (snapshots h) 0 (currentIndex h + 1) =
      take (nat (currentIndex h + 1)) (snapshots h)"
    using b(1) by (rule slice_prefix)
  show ?thesis
  proof (cases "currentIndex h + 1 = maxHistorySize h")
    case True
    then have "take (nat (currentIndex h + 1)) (snapshots h) \<noteq> []"
      using b(4) len by auto
    then show ?thesis
      unfolding saveState_def k Let_def using True len by simp
  next
    case False
    then have "currentIndex h + 1 < maxHistorySize h"
      using b(2,3) by simp
    then show ?thesis
      unfolding saveState_def k Let_def using False len by simp
  qed
qed

lemma saveState_inv:
  assumes "ledger_inv h"
  shows "ledger_inv (saveState h ed now)"
    and "at_newest (saveState h ed now)"
    and "maxHistorySize (saveState h ed now) = maxHistorySize h"
    and "currentIndex (saveState h ed now) = min (currentIndex h + 1) (maxHistorySize h - 1)"
proof -
  note b = ledger_inv_bounds [OF assms]
  note u = saveState_unfold [OF assms, of ed now]
  show "ledger_inv (saveState h ed now)"
    using b unfolding u by (auto simp: ledger_inv_def)
  show "at_newest (saveState h ed now)"
    using b unfolding u by (auto simp: at_newest_def)
  show "maxHistorySize (saveState h ed now) = maxHistorySize h"
    unfolding u by simp
  show "currentIndex (saveState h ed now) = min (currentIndex h + 1) (maxHistorySize h - 1)"
    using b unfolding u by auto
qed

lemma undo_unfold:
  assumes "ledger_inv h"
  shows "undo h ed =
    (if 0 < currentIndex h
     then (h\<lparr>currentIndex := currentIndex h - 1\<rparr>,
           restore ed (snapshots h ! nat (currentIndex h - 1)), Inr True)
     else (h, ed, Inr False))"
  using ledger_inv_bounds [OF assms] by (simp add: undo_def array_get_def Let_def)

lemma redo_unfold:
  assumes "ledger_inv h"
  shows "redo h ed =
    (if currentIndex h < int (length (snapshots h)) - 1
     then (h\<lparr>currentIndex := currentIndex h + 1\<rparr>,
           restore ed (snapshots h ! nat (currentIndex h + 1)), Inr True)
     else (h, ed, Inr False))"
  using ledger_inv_bounds [OF assms] by (simp add: redo_def array_get_def Let_def)

lemma undo_inv:
  assumes "ledger_inv h"
  shows "ledger_inv (fst (undo h ed))"
  using assms unfolding undo_unfold [OF assms] by (auto simp: ledger_inv_def)

lemma redo_inv:
  assumes "ledger_inv h"
  shows "ledger_inv (fst (redo h ed))"
  using assms unfolding redo_unfold [OF assms] by (auto simp: ledger_inv_def)

lemma clearHistory_inv:
  assumes "ledger_inv h"
  shows "ledger_inv (clearHistory h) \<and> at_newest (clearHistory h)"
  using assms by (simp add: ledger_inv_def at_newest_def clearHistory_def)

lemma redo_at_newest:
  assumes "at_newest h"
  shows "redo h ed = (h, ed, Inr False)" and "\<not> canRedo h"
  using assms by (simp_all add: at_newest_def redo_def canRedo_def)

lemma step_inv:
  assumes "ledger_inv h"
  shows "\<exists>h' ed'. step c (h, ed) = Inr (h', ed') \<and> ledger_inv h' \<and>
           (c \<noteq> Undo \<longrightarrow> at_newest h \<longrightarrow> at_newest h')"
proof (cases c)
  case (SaveState now)
  then show ?thesis
    using saveState_inv(1,2) [OF assms] by simp
next
  case Undo
  then show ?thesis
    using assms by (auto simp add: undo_unfold [OF assms] ledger_inv_def)
next
  case Redo
  then show ?thesis
    using assms by (auto simp add: redo_unfold [OF assms] ledger_inv_def at_newest_def)
next
  case ClearHistory
  then show ?thesis
    using clearHistory_inv [OF assms] by simp
qed (use assms in simp_all)

lemma run_inv:
  assumes "ledger_inv h"
  shows "\<exists>h' ed'. run cs (h, ed) = Inr (h', ed') \<and> ledger_inv h'"
  using assms
proof (induction cs arbitrary: h ed)
  case Nil
  then show ?case by simp
next
  case (Cons c cs)
  obtain h1 ed1 where s: "step c (h, ed) = Inr (h1, ed1)" and i: "ledger_inv h1"
    using step_inv [OF Cons.prems] by blast
  show ?case
    using Cons.IH [OF i, of ed1] s by simp
qed

lemma run_without_undo:
  assumes "ledger_inv h" and "at_newest h" and "Undo \<notin> set cs"
  shows "\<exists>h' ed'. run cs (h, ed) = Inr (h', ed') \<and> ledger_inv h' \<and> at_newest h'"
  using assms
proof (induction cs arbitrary: h ed)
  case Nil
  then show ?case by simp
next
  case (Cons c cs)
  have c: "c \<noteq> Undo" and rest: "Undo \<notin> set cs"
    using Cons.prems(3) by auto
  obtain h1 ed1 where s: "step c (h, ed) = Inr (h1, ed1)" and i: "ledger_inv h1"
    and n: "at_newest h1"
    using step_inv [OF Cons.prems(1), of c ed] c Cons.prems(2) by blast
  show ?case
    using Cons.IH [OF i n rest, of ed1] s by simp
qed

lemma saveStates_inv:
  assumes "ledger_inv h"
  shows "ledger_inv (saveStates eds h) \<and>
         maxHistorySize (saveStates eds h) = maxHistorySize h \<and>
         currentIndex (saveStates eds h) =
           min (currentIndex h + int (length eds)) (maxHistorySize h - 1) \<and>
         (eds \<noteq> [] \<longrightarrow> at_newest (saveStates eds h))"
  using assms
proof (induction eds arbitrary: h)
  case Nil
  then show ?case
    using ledger_inv_bounds [OF Nil] by simp
next
  case (Cons x eds)
  obtain ed now where x: "x = (ed, now)"
    by (cases x)
  note s = saveState_inv [OF Cons.prems, of ed now]
  note ih = Cons.IH [OF s(1)]
  have n: "at_newest (saveStates eds (saveState h ed now))"
  proof (cases eds)
    case Nil
    then show ?thesis using s(2) by simp
  next
    case (Cons y ys)
    then show ?thesis using ih by simp
  qed
  show ?case
    using ih n s(3,4) by (auto simp: x)
qed

lemma saveState_v_capturable:
  assumes "capturable ed"
  shows "saveState_v h ed now = (saveState h ed now, Inr ())"
  using createSnapshot_isValid [OF assms, of now]
  by (simp add: saveState_v_def saveState_def createSnapshot_v_capturable [OF assms] Let_def)

lemma saveStates_v_capturable:
  assumes "list_all (\<lambda>x. capturable (fst x)) eds"
  shows "saveStates_v eds h = (saveStates eds h, Inr ())"
  using assms
proof (induction eds arbitrary: h)
  case Nil
  then show ?case by simp
next
  case (Cons x eds)
  obtain ed now where x: "x = (ed, now)"
    by (cases x)
  have "capturable ed" and "list_all (\<lambda>x. capturable (fst x)) eds"
    using Cons.prems by (simp_all add: x)
  then show ?case
    using Cons.IH by (simp add: x saveState_v_capturable)
qed

lemma reachable_ledger_inv:
  "\<exists>h ed. run cs (new_HistoryManager, new_TextEditor) = Inr (h, ed) \<and> ledger_inv h"
  using new_HistoryManager_inv by (intro run_inv) simp

lemma setMaxHistorySize_inv:
  assumes "ledger_inv h" and "0 < n"
  shows "snd (setMaxHistorySize h (of_nat n)) = Inr () \<and>
         ledger_inv (fst (setMaxHistorySize h (of_nat n))) \<and>
         maxHistorySize (fst (setMaxHistorySize h (of_nat n))) = int n"
  using assms
  by (auto simp: setMaxHistorySize_def isInteger_of_nat ledger_inv_def Let_def)

lemma undo_after_saveState:
  assumes "ledger_inv h"
  shows "snd (undo (saveState h ed now) ed') =
    (if 0 \<le> currentIndex h \<and> 1 < maxHistorySize h
     then (restore ed' (snapshots h ! nat (currentIndex h)), Inr True)
     else (ed', Inr False))"
proof -
  note b = ledger_inv_bounds [OF assms]
  note s = saveState_inv(1) [OF assms, of ed now]
  note u = saveState_unfold [OF assms, of ed now]
  let ?kept = "take (nat (currentIndex h + 1)) (snapshots h)"
  have len: "length ?kept = nat (currentIndex h + 1)"
    using b(1,2) by simp
  note un = undo_unfold [OF s, of ed']
  show ?thesis
  proof (cases "currentIndex h + 1 = maxHistorySize h")
    case True
    have "1 < maxHistorySize h \<Longrightarrow>
        (tl ?kept @ [createSnapshot ed now]) ! nat (currentIndex h - 1) =
        snapshots h ! nat (currentIndex h)"
    proof -
      assume big: "1 < maxHistorySize h"
      have i: "nat (currentIndex h - 1) < length (tl ?kept)"
        using True big len by simp
      have "(tl ?kept @ [createSnapshot ed now]) ! nat (currentIndex h - 1) =
          tl ?kept ! nat (currentIndex h - 1)"
        using i by (simp add: nth_append)
      also have "\<dots> = ?kept ! Suc (nat (currentIndex h - 1))"
        using i by (simp add: nth_tl)
      also have "Suc (nat (currentIndex h - 1)) = nat (currentIndex h)"
        using True big by simp
      also have "?kept ! nat (currentIndex h) = snapshots h ! nat (currentIndex h)"
        using True big by simp
      finally show ?thesis .
    qed
    then show ?thesis
      unfolding un using True b by (auto simp add: u)
  next
    case False
    have "0 \<le> currentIndex h \<Longrightarrow>
        (?kept @ [createSnapshot ed now]) ! nat (currentIndex h) =
        snapshots h ! nat (currentIndex h)"
      using len by (simp add: nth_append)
    then show ?thesis
      unfolding un using False b by (auto simp add: u)
  qed
qed

section \<open>Claims about the caretaker\<close>

text \<open>
  C1 (the caretaker does not do what the claim says). The claim: after \<open>saveState\<close> has
  captured the document state \<open>S\<close> and the document has then been changed, one \<open>undo\<close>
  brings the document back to \<open>S\<close>. The theorem evaluates two runs from a new caretaker
  and a new editor. After \<open>saveState; write("Hello World")\<close> the \<open>undo\<close> returns \<open>false\<close>
  and the document keeps \<open>"Hello World"\<close> instead of going back to the saved empty state.
  After \<open>saveState; write("Hello World"); saveState; setFontSize(16)\<close> the second
  \<open>saveState\<close> captured content \<open>"Hello World"\<close>, cursor 11, font size 12, and the
  \<open>undo\<close> returns \<open>true\<close> but restores content \<open>""\<close>, cursor 0, font size 12, the
  capture before the saved one.
\<close>

theorem undo_after_saveState_trace:
  "write new_TextEditor ''Hello World'' =
     \<lparr>content = ''Hello World'', cursorPosition = 11, fontSize = 12\<rparr> \<and>
   saveState new_HistoryManager new_TextEditor 0 =
     \<lparr>snapshots = [new_EditorSnapshot '''' 0 12 0], currentIndex = 0, maxHistorySize = 50\<rparr> \<and>
   undo \<lparr>snapshots = [new_EditorSnapshot '''' 0 12 0], currentIndex = 0, maxHistorySize = 50\<rparr>
       \<lparr>content = ''Hello World'', cursorPosition = 11, fontSize = 12\<rparr> =
     (\<lparr>snapshots = [new_EditorSnapshot '''' 0 12 0], currentIndex = 0, maxHistorySize = 50\<rparr>,
      \<lparr>content = ''Hello World'', cursorPosition = 11, fontSize = 12\<rparr>, Inr False) \<and>
   saveState
       \<lparr>snapshots = [new_EditorSnapshot '''' 0 12 0], currentIndex = 0, maxHistorySize = 50\<rparr>
       \<lparr>content = ''Hello World'', cursorPosition = 11, fontSize = 12\<rparr> 1 =
     \<lparr>snapshots = [new_EditorSnapshot '''' 0 12 0, new_EditorSnapshot ''Hello World'' 11 12 1],
      currentIndex = 1, maxHistorySize = 50\<rparr> \<and>
   setFontSize \<lparr>content = ''Hello World'', cursorPosition = 11, fontSize = 12\<rparr> 16 =
     \<lparr>content = ''Hello World'', cursorPosition = 11, fontSize = 16\<rparr> \<and>
   undo
       \<lparr>snapshots = [new_EditorSnapshot '''' 0 12 0, new_EditorSnapshot ''Hello World'' 11 12 1],
        currentIndex = 1, maxHistorySize = 50\<rparr>
       \<lparr>content = ''Hello World'', cursorPosition = 11, fontSize = 16\<rparr> =
     (\<lparr>snapshots = [new_EditorSnapshot '''' 0 12 0, new_EditorSnapshot ''Hello World'' 11 12 1],
       currentIndex = 0, maxHistorySize = 50\<rparr>,
      \<lparr>content = '''', cursorPosition = 0, fontSize = 12\<rparr>, Inr True)"
  by (simp add: write_def setFontSize_def saveState_def undo_def restore_def createSnapshot_def
      new_EditorSnapshot_def new_TextEditor_def new_HistoryManager_def slice_def array_get_def
      substring_def substring_from_def ToIntegerOrInfinity_def Let_def)

text \<open>
  C2 (the caretaker does not do what the claim says). The run of the example, from a new
  caretaker and a new editor: \<open>saveState; write("Hello"); saveState; write(" World!")\<close>
  gives content \<open>"Hello World!"\<close> with cursor 12, as claimed. The first \<open>undo\<close> returns
  \<open>true\<close> but gives content \<open>""\<close> with cursor 0, where the claim has \<open>"Hello"\<close> with
  cursor 5; the second \<open>undo\<close> already returns \<open>false\<close> and changes nothing, where the
  claim has it return \<open>true\<close>, and a third \<open>undo\<close>, on the same state, does the same;
  a \<open>redo\<close> from there gives \<open>"Hello"\<close> with cursor 5 and returns \<open>true\<close>.
\<close>

theorem readme_example_trace:
  "write new_TextEditor ''Hello'' =
     \<lparr>content = ''Hello'', cursorPosition = 5, fontSize = 12\<rparr> \<and>
   write \<lparr>content = ''Hello'', cursorPosition = 5, fontSize = 12\<rparr> '' World!'' =
     \<lparr>content = ''Hello World!'', cursorPosition = 12, fontSize = 12\<rparr> \<and>
   saveState (saveState new_HistoryManager new_TextEditor 0)
       \<lparr>content = ''Hello'', cursorPosition = 5, fontSize = 12\<rparr> 1 =
     \<lparr>snapshots = [new_EditorSnapshot '''' 0 12 0, new_EditorSnapshot ''Hello'' 5 12 1],
      currentIndex = 1, maxHistorySize = 50\<rparr> \<and>
   undo
       \<lparr>snapshots = [new_EditorSnapshot '''' 0 12 0, new_EditorSnapshot ''Hello'' 5 12 1],
        currentIndex = 1, maxHistorySize = 50\<rparr>
       \<lparr>content = ''Hello World!'', cursorPosition = 12, fontSize = 12\<rparr> =
     (\<lparr>snapshots = [new_EditorSnapshot '''' 0 12 0, new_EditorSnapshot ''Hello'' 5 12 1],
       currentIndex = 0, maxHistorySize = 50\<rparr>,
      \<lparr>content = '''', cursorPosition = 0, fontSize = 12\<rparr>, Inr True) \<and>
   undo
       \<lparr>snapshots = [new_EditorSnapshot '''' 0 12 0, new_EditorSnapshot ''Hello'' 5 12 1],
        currentIndex = 0, maxHistorySize = 50\<rparr>
       \<lparr>content = '''', cursorPosition = 0, fontSize = 12\<rparr> =
     (\<lparr>snapshots = [new_EditorSnapshot '''' 0 12 0, new_EditorSnapshot ''Hello'' 5 12 1],
       currentIndex = 0, maxHistorySize = 50\<rparr>,
      \<lparr>content = '''', cursorPosition = 0, fontSize = 12\<rparr>, Inr False) \<and>
   redo
       \<lparr>snapshots = [new_EditorSnapshot '''' 0 12 0, new_EditorSnapshot ''Hello'' 5 12 1],
        currentIndex = 0, maxHistorySize = 50\<rparr>
       \<lparr>content = '''', cursorPosition = 0, fontSize = 12\<rparr> =
     (\<lparr>snapshots = [new_EditorSnapshot '''' 0 12 0, new_EditorSnapshot ''Hello'' 5 12 1],
       currentIndex = 1, maxHistorySize = 50\<rparr>,
      \<lparr>content = ''Hello'', cursorPosition = 5, fontSize = 12\<rparr>, Inr True)"
  by (simp add: write_def saveState_def undo_def redo_def restore_def createSnapshot_def
      new_EditorSnapshot_def new_TextEditor_def new_HistoryManager_def slice_def array_get_def
      substring_def substring_from_def ToIntegerOrInfinity_def Let_def)

text \<open>
  C3 (the caretaker does not do what the claim says). The claim: when \<open>undo\<close> succeeds on
  a document in state \<open>D\<close>, the \<open>redo\<close> right after it returns \<open>true\<close> and brings the
  document back to \<open>D\<close>. In the run \<open>saveState; write("Hello"); saveState;
  write(" World!")\<close> the document is \<open>D\<close> = content \<open>"Hello World!"\<close>, cursor 12, font
  size 12. The \<open>undo\<close> succeeds and the \<open>redo\<close> after it returns \<open>true\<close>, but the
  document is then content \<open>"Hello"\<close>, cursor 5: \<open>D\<close> was never captured, so it is lost.
\<close>

theorem redo_after_undo_trace:
  "(case undo (saveState (saveState new_HistoryManager new_TextEditor 0)
                 (write new_TextEditor ''Hello'') 1)
              (write (write new_TextEditor ''Hello'') '' World!'') of
      (h, ed, r) \<Rightarrow> (r, redo h ed)) =
     (Inr True,
      \<lparr>snapshots = [new_EditorSnapshot '''' 0 12 0, new_EditorSnapshot ''Hello'' 5 12 1],
       currentIndex = 1, maxHistorySize = 50\<rparr>,
      \<lparr>content = ''Hello'', cursorPosition = 5, fontSize = 12\<rparr>, Inr True) \<and>
   write (write new_TextEditor ''Hello'') '' World!'' =
     \<lparr>content = ''Hello World!'', cursorPosition = 12, fontSize = 12\<rparr>"
  by (simp add: write_def saveState_def undo_def redo_def restore_def createSnapshot_def
      new_EditorSnapshot_def new_TextEditor_def new_HistoryManager_def slice_def array_get_def
      substring_def substring_from_def ToIntegerOrInfinity_def Let_def)

text \<open>
  C4. On a caretaker that satisfies the invariant of the data model (as it does after any
  number of \<open>undo\<close> calls), \<open>saveState\<close> keeps of the old captures only those at positions
  up to \<open>currentIndex\<close> (less the oldest one when the history is full) and puts the new
  capture last: every capture beyond \<open>currentIndex\<close> is gone. Right afterwards \<open>redo\<close>
  returns \<open>false\<close> without touching the document and \<open>canRedo\<close> is \<open>false\<close>, and this
  stays so through every further sequence of calls that contains no \<open>undo\<close>; such a
  sequence never throws.
\<close>

theorem saveState_discards_redo_branch:
  assumes "ledger_inv h"
  shows "butlast (snapshots (saveState h ed now)) =
           drop (if currentIndex h + 1 = maxHistorySize h then 1 else 0)
             (take (nat (currentIndex h + 1)) (snapshots h)) \<and>
         snapshots (saveState h ed now) \<noteq> [] \<and>
         last (snapshots (saveState h ed now)) = createSnapshot ed now \<and>
         redo (saveState h ed now) ed' = (saveState h ed now, ed', Inr False) \<and>
         \<not> canRedo (saveState h ed now) \<and>
         (Undo \<notin> set cs \<longrightarrow>
            (case run cs (saveState h ed now, ed') of
               Inl e \<Rightarrow> False
             | Inr (h', ed'') \<Rightarrow> \<not> canRedo h' \<and> redo h' ed'' = (h', ed'', Inr False)))"
proof -
  note u = saveState_unfold [OF assms, of ed now]
  note s = saveState_inv(1,2) [OF assms, of ed now]
  have kept: "butlast (snapshots (saveState h ed now)) =
      drop (if currentIndex h + 1 = maxHistorySize h then 1 else 0)
        (take (nat (currentIndex h + 1)) (snapshots h))"
    unfolding u by (simp add: drop_Suc butlast_append)
  have new: "snapshots (saveState h ed now) \<noteq> [] \<and>
      last (snapshots (saveState h ed now)) = createSnapshot ed now"
    unfolding u by simp
  have later: "Undo \<notin> set cs \<longrightarrow>
      (case run cs (saveState h ed now, ed') of
         Inl e \<Rightarrow> False
       | Inr (h', ed'') \<Rightarrow> \<not> canRedo h' \<and> redo h' ed'' = (h', ed'', Inr False))"
  proof
    assume "Undo \<notin> set cs"
    then obtain h' ed'' where r: "run cs (saveState h ed now, ed') = Inr (h', ed'')"
      and n: "at_newest h'"
      using run_without_undo [OF s, of cs ed'] by blast
    show "case run cs (saveState h ed now, ed') of
         Inl e \<Rightarrow> False
       | Inr (h', ed'') \<Rightarrow> \<not> canRedo h' \<and> redo h' ed'' = (h', ed'', Inr False)"
      using redo_at_newest [OF n] by (simp add: r)
  qed
  show ?thesis
    using kept new later redo_at_newest [OF s(2)] by simp
qed

theorem saveState_discards_redo_branch_witness:
  "ledger_inv
     \<lparr>snapshots = [new_EditorSnapshot '''' 0 12 0, new_EditorSnapshot ''a'' 1 12 1,
                   new_EditorSnapshot ''ab'' 2 12 2],
      currentIndex = 0, maxHistorySize = 50\<rparr> \<and>
   canRedo
     \<lparr>snapshots = [new_EditorSnapshot '''' 0 12 0, new_EditorSnapshot ''a'' 1 12 1,
                   new_EditorSnapshot ''ab'' 2 12 2],
      currentIndex = 0, maxHistorySize = 50\<rparr> \<and>
   saveState
     \<lparr>snapshots = [new_EditorSnapshot '''' 0 12 0, new_EditorSnapshot ''a'' 1 12 1,
                   new_EditorSnapshot ''ab'' 2 12 2],
      currentIndex = 0, maxHistorySize = 50\<rparr> new_TextEditor 3 =
     \<lparr>snapshots = [new_EditorSnapshot '''' 0 12 0, new_EditorSnapshot '''' 0 12 3],
      currentIndex = 1, maxHistorySize = 50\<rparr> \<and>
   redo
     \<lparr>snapshots = [new_EditorSnapshot '''' 0 12 0, new_EditorSnapshot '''' 0 12 3],
      currentIndex = 1, maxHistorySize = 50\<rparr> new_TextEditor =
     (\<lparr>snapshots = [new_EditorSnapshot '''' 0 12 0, new_EditorSnapshot '''' 0 12 3],
       currentIndex = 1, maxHistorySize = 50\<rparr>, new_TextEditor, Inr False) \<and>
   Undo \<notin> set [Write ''x'', SaveState 4, Redo]"
proof -
  let ?h = "\<lparr>snapshots = [new_EditorSnapshot '''' 0 12 0, new_EditorSnapshot ''a'' 1 12 1,
                   new_EditorSnapshot ''ab'' 2 12 2],
      currentIndex = 0, maxHistorySize = 50\<rparr>"
  have i: "ledger_inv ?h"
    by (simp add: ledger_inv_def)
  have r: "canRedo ?h"
    by (simp add: canRedo_def)
  have s: "saveState ?h new_TextEditor 3 =
     \<lparr>snapshots = [new_EditorSnapshot '''' 0 12 0, new_EditorSnapshot '''' 0 12 3],
      currentIndex = 1, maxHistorySize = 50\<rparr>"
    by (simp add: saveState_unfold [OF i] createSnapshot_def new_TextEditor_def)
  show ?thesis
    using i r s
      saveState_discards_redo_branch [OF i, of new_TextEditor 3 new_TextEditor
        "[Write ''x'', SaveState 4, Redo]"]
    by (simp add: createSnapshot_def new_TextEditor_def)
qed

text \<open>
  C5. On a caretaker with capacity \<open>N\<close> that satisfies the invariant of the data model,
  \<open>N + k\<close> successive \<open>saveState\<close> calls with \<open>k > 0\<close> (the document free to change
  between them, no other call in between) leave exactly \<open>N\<close> captures stored and
  \<open>currentIndex = N - 1\<close>. In one call: when the captures kept plus the new one exceed
  the capacity, the oldest is dropped and \<open>currentIndex\<close> stays; otherwise
  \<open>currentIndex\<close> goes up by one. The validating caretaker does the same on documents
  whose snapshot passes validation, and never throws there.
\<close>

theorem saveStates_fill_capacity:
  assumes "ledger_inv h" and "maxHistorySize h = int N"
    and "length eds = N + k" and "0 < k"
  shows "length (snapshots (saveStates eds h)) = N \<and>
         currentIndex (saveStates eds h) = int N - 1 \<and>
         currentIndex (saveStates eds h) \<le> int N - 1 \<and>
         (int (length (take (nat (currentIndex h + 1)) (snapshots h) @
                [createSnapshot ed now])) > maxHistorySize h \<longrightarrow>
            snapshots (saveState h ed now) =
              tl (take (nat (currentIndex h + 1)) (snapshots h) @ [createSnapshot ed now]) \<and>
            currentIndex (saveState h ed now) = currentIndex h) \<and>
         (\<not> int (length (take (nat (currentIndex h + 1)) (snapshots h) @
                [createSnapshot ed now])) > maxHistorySize h \<longrightarrow>
            snapshots (saveState h ed now) =
              take (nat (currentIndex h + 1)) (snapshots h) @ [createSnapshot ed now] \<and>
            currentIndex (saveState h ed now) = currentIndex h + 1) \<and>
         (list_all (\<lambda>x. capturable (fst x)) eds \<longrightarrow>
            saveStates_v eds h = (saveStates eds h, Inr ()))"
proof -
  note b = ledger_inv_bounds [OF assms(1)]
  note a = saveStates_inv [OF assms(1), of eds]
  have ne: "eds \<noteq> []"
    using assms(3,4) by auto
  have idx: "currentIndex (saveStates eds h) = int N - 1"
    using a b(1) assms(2,3,4) by simp
  have "at_newest (saveStates eds h)"
    using a ne by simp
  then have len: "length (snapshots (saveStates eds h)) = N"
    using idx by (simp add: at_newest_def)
  have k: "slice (snapshots h) 0 (currentIndex h + 1) =
      take (nat (currentIndex h + 1)) (snapshots h)"
    using b(1) by (rule slice_prefix)
  have one: "(int (length (take (nat (currentIndex h + 1)) (snapshots h) @
                [createSnapshot ed now])) > maxHistorySize h \<longrightarrow>
            snapshots (saveState h ed now) =
              tl (take (nat (currentIndex h + 1)) (snapshots h) @ [createSnapshot ed now]) \<and>
            currentIndex (saveState h ed now) = currentIndex h) \<and>
         (\<not> int (length (take (nat (currentIndex h + 1)) (snapshots h) @
                [createSnapshot ed now])) > maxHistorySize h \<longrightarrow>
            snapshots (saveState h ed now) =
              take (nat (currentIndex h + 1)) (snapshots h) @ [createSnapshot ed now] \<and>
            currentIndex (saveState h ed now) = currentIndex h + 1)"
    unfolding saveState_def k Let_def by simp
  have v: "list_all (\<lambda>x. capturable (fst x)) eds \<longrightarrow>
      saveStates_v eds h = (saveStates eds h, Inr ())"
    by (simp add: saveStates_v_capturable)
  show ?thesis
    using len idx one v by simp
qed

theorem saveStates_fill_capacity_witness:
  "ledger_inv \<lparr>snapshots = [], currentIndex = - 1, maxHistorySize = 2\<rparr> \<and>
   saveStates
     [(new_TextEditor, 0),
      (\<lparr>content = ''a'', cursorPosition = 1, fontSize = 12\<rparr>, 1),
      (\<lparr>content = ''ab'', cursorPosition = 2, fontSize = 12\<rparr>, 2)]
     \<lparr>snapshots = [], currentIndex = - 1, maxHistorySize = 2\<rparr> =
     \<lparr>snapshots = [new_EditorSnapshot ''a'' 1 12 1, new_EditorSnapshot ''ab'' 2 12 2],
      currentIndex = 1, maxHistorySize = 2\<rparr> \<and>
   length (snapshots (saveStates
     [(new_TextEditor, 0),
      (\<lparr>content = ''a'', cursorPosition = 1, fontSize = 12\<rparr>, 1),
      (\<lparr>content = ''ab'', cursorPosition = 2, fontSize = 12\<rparr>, 2)]
     \<lparr>snapshots = [], currentIndex = - 1, maxHistorySize = 2\<rparr>)) = 2"
proof -
  let ?h = "\<lparr>snapshots = [], currentIndex = - 1, maxHistorySize = 2\<rparr>"
  let ?eds = "[(new_TextEditor, 0),
      (\<lparr>content = ''a'', cursorPosition = 1, fontSize = 12\<rparr>, 1),
      (\<lparr>content = ''ab'', cursorPosition = 2, fontSize = 12\<rparr>, 2)]"
  have i: "ledger_inv ?h"
    by (simp add: ledger_inv_def)
  have m: "maxHistorySize ?h = int 2"
    by simp
  have l: "length ?eds = 2 + 1"
    by simp
  have k: "(0::nat) < 1"
    by simp
  have run: "saveStates ?eds ?h =
     \<lparr>snapshots = [new_EditorSnapshot ''a'' 1 12 1, new_EditorSnapshot ''ab'' 2 12 2],
      currentIndex = 1, maxHistorySize = 2\<rparr>"
    by (simp add: saveState_def slice_def createSnapshot_def new_TextEditor_def Let_def)
  show ?thesis
    using i run saveStates_fill_capacity [OF i m l k, of new_TextEditor 0] by simp
qed

section \<open>Claims about the editor\<close>

text \<open>
  C6. On a document whose cursor is an integer position \<open>c\<close> within its text (the
  invariant of the data model), \<open>write(t)\<close> for a non-empty \<open>t\<close> followed at once by
  \<open>delete(length t)\<close> gives back the document it started from: content and cursor (and
  font size) are those before the write. Neither \<open>write\<close> nor \<open>delete\<close> changes the
  font size. This holds for the editor of \<open>TextEditor.ts\<close> and for the validating
  editor, where both calls are accepted.
\<close>

theorem write_then_delete_restores:
  assumes "cursorPosition ed = of_nat c" and "c \<le> length (content ed)"
    and "text \<noteq> []"
  shows "delete (write ed text) (of_nat (length text)) = ed \<and>
         fontSize (write ed text) = fontSize ed \<and>
         fontSize (delete ed count) = fontSize ed \<and>
         snd (write_v ed text) = Inr () \<and>
         delete_v (fst (write_v ed text)) (of_nat (length text)) = (ed, Inr ()) \<and>
         fontSize (fst (write_v ed text)) = fontSize ed \<and>
         fontSize (fst (delete_v ed count)) = fontSize ed"
proof -
  have inv: "cursor_in_text ed"
    using assms(1,2) by (simp add: cursor_in_text_def isInteger_of_nat)
  have rt: "delete (write ed text) (of_nat (length text)) = ed"
    using inv by (rule write_delete_roundtrip)
  have wv: "write_v ed text = (write ed text, Inr ())"
    using assms(3) by (rule write_v_accepts)
  have dv: "delete_v (write ed text) (of_nat (length text)) = (ed, Inr ())"
    using rt by (simp add: delete_v_accepts isInteger_of_nat)
  have fv: "fontSize (fst (delete_v ed count)) = fontSize ed"
    by (simp add: delete_v_def Let_def)
  show ?thesis
    using rt wv dv fv by (simp add: write_keeps_fontSize delete_keeps_fontSize)
qed

theorem write_then_delete_restores_witness:
  "cursor_in_text \<lparr>content = ''Hello World'', cursorPosition = 5, fontSize = 12\<rparr> \<and>
   write \<lparr>content = ''Hello World'', cursorPosition = 5, fontSize = 12\<rparr> '', dear'' =
     \<lparr>content = ''Hello, dear World'', cursorPosition = 11, fontSize = 12\<rparr> \<and>
   delete \<lparr>content = ''Hello, dear World'', cursorPosition = 11, fontSize = 12\<rparr> 6 =
     \<lparr>content = ''Hello World'', cursorPosition = 5, fontSize = 12\<rparr>"
proof -
  let ?ed = "\<lparr>content = ''Hello World'', cursorPosition = 5, fontSize = 12\<rparr>"
  have h: "cursor_in_text ?ed"
    using isInteger_of_nat [of 5] by (simp add: cursor_in_text_def)
  have c: "cursorPosition ?ed = of_nat 5"
    by simp
  have l: "5 \<le> length (content ?ed)"
    by simp
  have t: "'', dear'' \<noteq> []"
    by simp
  have w: "write ?ed '', dear'' =
      \<lparr>content = ''Hello, dear World'', cursorPosition = 11, fontSize = 12\<rparr>"
    by (simp add: write_at_cursor)
  show ?thesis
    using h w write_then_delete_restores [OF c l t, of 0] by simp
qed

text \<open>
  C7. In the validating editor, on a document whose cursor is a position \<open>c\<close> within its
  text: \<open>delete(count)\<close> throws exactly when \<open>count\<close> is negative or not an integer, and
  then it is the validation error; for a non-negative integer \<open>n\<close>, when \<open>c < n\<close> the call
  returns with the document unchanged, and otherwise it removes the \<open>n\<close> characters just
  before the cursor and moves the cursor back by \<open>n\<close>.
\<close>

theorem delete_v_gated:
  assumes "cursorPosition ed = of_nat c" and "c \<le> length (content ed)"
  shows "((\<exists>e. snd (delete_v ed count) = Inl e) = (count < 0 \<or> \<not> isInteger count)) \<and>
         (count < 0 \<or> \<not> isInteger count \<longrightarrow>
            delete_v ed count = (ed, Inl (Error ''Invalid delete count''))) \<and>
         (c < n \<longrightarrow> delete_v ed (of_nat n) = (ed, Inr ())) \<and>
         (n \<le> c \<longrightarrow>
            delete_v ed (of_nat n) =
              (ed\<lparr>content := take (c - n) (content ed) @ drop c (content ed),
                  cursorPosition := of_nat (c - n)\<rparr>, Inr ()) \<and>
            length (take (c - n) (content ed) @ drop c (content ed)) + n =
              length (content ed))"
proof -
  have acc: "delete_v ed (of_nat n) = (delete ed (of_nat n), Inr ())"
    by (simp add: delete_v_accepts isInteger_of_nat)
  have noop: "c < n \<longrightarrow> delete_v ed (of_nat n) = (ed, Inr ())"
    using assms(1) by (simp add: acc delete_past_start)
  have rem: "n \<le> c \<longrightarrow>
      delete_v ed (of_nat n) =
        (ed\<lparr>content := take (c - n) (content ed) @ drop c (content ed),
            cursorPosition := of_nat (c - n)\<rparr>, Inr ())"
    using assms(1) by (simp add: acc delete_nat_before_cursor)
  have len: "n \<le> c \<longrightarrow>
      length (take (c - n) (content ed) @ drop c (content ed)) + n = length (content ed)"
    using assms(2) by simp
  show ?thesis
    using noop rem len delete_v_fails_iff [of ed count] delete_v_rejects [of count ed]
    by blast
qed

theorem delete_v_gated_witness:
  "delete_v \<lparr>content = ''Hello'', cursorPosition = 1, fontSize = 12\<rparr> 3 =
     (\<lparr>content = ''Hello'', cursorPosition = 1, fontSize = 12\<rparr>, Inr ()) \<and>
   delete_v \<lparr>content = ''Hello'', cursorPosition = 1, fontSize = 12\<rparr> 1 =
     (\<lparr>content = ''ello'', cursorPosition = 0, fontSize = 12\<rparr>, Inr ()) \<and>
   delete_v \<lparr>content = ''Hello'', cursorPosition = 1, fontSize = 12\<rparr> (- 1) =
     (\<lparr>content = ''Hello'', cursorPosition = 1, fontSize = 12\<rparr>,
      Inl (Error ''Invalid delete count'')) \<and>
   delete_v \<lparr>content = ''Hello'', cursorPosition = 1, fontSize = 12\<rparr> (1 / 2) =
     (\<lparr>content = ''Hello'', cursorPosition = 1, fontSize = 12\<rparr>,
      Inl (Error ''Invalid delete count''))"
proof -
  let ?ed = "\<lparr>content = ''Hello'', cursorPosition = 1, fontSize = 12\<rparr>"
  have c: "cursorPosition ?ed = of_nat 1"
    by simp
  have l: "1 \<le> length (content ?ed)"
    by simp
  have half: "\<not> isInteger (1 / 2)"
    by (rule fraction_not_integer [of 0]) simp_all
  show ?thesis
    using delete_v_gated [OF c l, of "- 1" 3] delete_v_gated [OF c l, of "1 / 2" 1] half
    by simp
qed

text \<open>
  C8. In the validating editor \<open>setCursor(position)\<close> throws exactly when \<open>position\<close> is
  negative or not an integer, and then it is the validation error; for a non-negative
  integer it returns and the cursor is the smaller of \<open>position\<close> and the length of the
  text, content and font size as before.
\<close>

theorem setCursor_v_clamps:
  "((\<exists>e. snd (setCursor_v ed position) = Inl e) = (position < 0 \<or> \<not> isInteger position)) \<and>
   (position < 0 \<or> \<not> isInteger position \<longrightarrow>
      setCursor_v ed position = (ed, Inl (Error ''Invalid cursor position''))) \<and>
   (0 \<le> position \<and> isInteger position \<longrightarrow>
      setCursor_v ed position =
        (ed\<lparr>cursorPosition := min position (of_nat (length (content ed)))\<rparr>, Inr ()))"
proof -
  have rej: "position < 0 \<or> \<not> isInteger position \<longrightarrow>
      setCursor_v ed position = (ed, Inl (Error ''Invalid cursor position''))"
    by (simp add: setCursor_v_def)
  show ?thesis
    using rej setCursor_v_fails_iff [of ed position] setCursor_v_accepts [of position ed]
    by blast
qed

theorem setCursor_v_clamps_witness:
  "setCursor_v \<lparr>content = ''Hello'', cursorPosition = 0, fontSize = 12\<rparr> 1000 =
     (\<lparr>content = ''Hello'', cursorPosition = 5, fontSize = 12\<rparr>, Inr ()) \<and>
   setCursor_v \<lparr>content = ''Hello'', cursorPosition = 0, fontSize = 12\<rparr> (- 1) =
     (\<lparr>content = ''Hello'', cursorPosition = 0, fontSize = 12\<rparr>,
      Inl (Error ''Invalid cursor position'')) \<and>
   setCursor_v \<lparr>content = ''Hello'', cursorPosition = 0, fontSize = 12\<rparr> (5 / 2) =
     (\<lparr>content = ''Hello'', cursorPosition = 0, fontSize = 12\<rparr>,
      Inl (Error ''Invalid cursor position''))"
proof -
  let ?ed = "\<lparr>content = ''Hello'', cursorPosition = 0, fontSize = 12\<rparr>"
  have big: "isInteger 1000"
    using isInteger_of_nat [of 1000] by simp
  have frac: "\<not> isInteger (5 / 2)"
    by (rule fraction_not_integer [of 2]) simp_all
  show ?thesis
    using setCursor_v_clamps [of ?ed 1000] setCursor_v_clamps [of ?ed "- 1"]
      setCursor_v_clamps [of ?ed "5 / 2"] big frac
    by simp
qed

text \<open>
  C9. In the validating editor, a call of \<open>write\<close>, \<open>delete\<close>, \<open>setCursor\<close> or
  \<open>setFontSize\<close> that throws leaves the document as it was: content, cursor and font
  size are those before the call.
\<close>

theorem rejected_call_changes_nothing:
  "(snd (write_v ed text) = Inl e1 \<longrightarrow> fst (write_v ed text) = ed) \<and>
   (snd (delete_v ed count) = Inl e2 \<longrightarrow> fst (delete_v ed count) = ed) \<and>
   (snd (setCursor_v ed position) = Inl e3 \<longrightarrow> fst (setCursor_v ed position) = ed) \<and>
   (snd (setFontSize_v ed sz) = Inl e4 \<longrightarrow> fst (setFontSize_v ed sz) = ed)"
  by (simp add: write_v_def delete_v_def setCursor_v_def setFontSize_v_def Let_def)

theorem rejected_call_changes_nothing_witness:
  "snd (write_v new_TextEditor '''') = Inl (Error ''Invalid text input'') \<and>
   fst (write_v new_TextEditor '''') = new_TextEditor \<and>
   snd (delete_v new_TextEditor (- 1)) = Inl (Error ''Invalid delete count'') \<and>
   fst (delete_v new_TextEditor (- 1)) = new_TextEditor \<and>
   snd (setCursor_v new_TextEditor (- 3)) = Inl (Error ''Invalid cursor position'') \<and>
   fst (setCursor_v new_TextEditor (- 3)) = new_TextEditor \<and>
   snd (setFontSize_v new_TextEditor 0) = Inl (Error ''Invalid font size'') \<and>
   fst (setFontSize_v new_TextEditor 0) = new_TextEditor"
proof -
  have w: "snd (write_v new_TextEditor '''') = Inl (Error ''Invalid text input'')"
    by (simp add: write_v_def)
  have d: "snd (delete_v new_TextEditor (- 1)) = Inl (Error ''Invalid delete count'')"
    by (simp add: delete_v_def)
  have c: "snd (setCursor_v new_TextEditor (- 3)) = Inl (Error ''Invalid cursor position'')"
    by (simp add: setCursor_v_def)
  have f: "snd (setFontSize_v new_TextEditor 0) = Inl (Error ''Invalid font size'')"
    by (simp add: setFontSize_v_def)
  show ?thesis
    using w d c f
      rejected_call_changes_nothing [of new_TextEditor "''''" "Error ''Invalid text input''"
        "- 1" "Error ''Invalid delete count''" "- 3" "Error ''Invalid cursor position''"
        0 "Error ''Invalid font size''"]
    by simp
qed

text \<open>
  C10. Taking a snapshot and restoring are inverse on content, cursor and font size. In
  \<open>TextEditor.ts\<close>: restoring a document from its own snapshot leaves it as it is, and
  after restoring any snapshot \<open>c\<close> a new snapshot of the document agrees with \<open>c\<close> on
  the three fields. In the validating editor the same holds for every snapshot the
  validating constructor has built.
\<close>

theorem snapshot_restore_inverse:
  "restore ed (createSnapshot ed now) = ed \<and>
   getContent (createSnapshot (restore ed c) now) = getContent c \<and>
   getCursorPosition (createSnapshot (restore ed c) now) = getCursorPosition c \<and>
   getFontSize (createSnapshot (restore ed c) now) = getFontSize c \<and>
   (createSnapshot_v ed now = Inr s \<longrightarrow> restore_v ed (Some s) = (ed, Inr ())) \<and>
   (new_EditorSnapshot_v a p f t = Inr c \<longrightarrow>
      snd (restore_v ed (Some c)) = Inr () \<and>
      createSnapshot_v (fst (restore_v ed (Some c))) now = Inr (c\<lparr>getTimestamp := now\<rparr>))"
proof -
  have own: "createSnapshot_v ed now = Inr s \<longrightarrow> restore_v ed (Some s) = (ed, Inr ())"
    by (auto simp: createSnapshot_v_def restore_v_def new_EditorSnapshot_def
        dest!: new_EditorSnapshot_v_Inr)
  have after: "new_EditorSnapshot_v a p f t = Inr c \<longrightarrow>
      snd (restore_v ed (Some c)) = Inr () \<and>
      createSnapshot_v (fst (restore_v ed (Some c))) now = Inr (c\<lparr>getTimestamp := now\<rparr>)"
    by (auto simp: createSnapshot_v_def restore_v_def new_EditorSnapshot_def
        new_EditorSnapshot_v_def split: if_splits)
  show ?thesis
    using own after by (simp add: restore_createSnapshot createSnapshot_restore)
qed

theorem snapshot_restore_inverse_witness:
  "createSnapshot_v \<lparr>content = ''Hello'', cursorPosition = 5, fontSize = 12\<rparr> 7 =
     Inr \<lparr>getContent = ''Hello'', getCursorPosition = 5, getFontSize = 12, getTimestamp = 7\<rparr> \<and>
   restore_v \<lparr>content = ''Hello'', cursorPosition = 5, fontSize = 12\<rparr>
     (Some \<lparr>getContent = ''Hello'', getCursorPosition = 5, getFontSize = 12, getTimestamp = 7\<rparr>) =
     (\<lparr>content = ''Hello'', cursorPosition = 5, fontSize = 12\<rparr>, Inr ()) \<and>
   new_EditorSnapshot_v ''abc'' 2 16 3 =
     Inr \<lparr>getContent = ''abc'', getCursorPosition = 2, getFontSize = 16, getTimestamp = 3\<rparr> \<and>
   createSnapshot_v
     (fst (restore_v \<lparr>content = ''Hello'', cursorPosition = 5, fontSize = 12\<rparr>
       (Some \<lparr>getContent = ''abc'', getCursorPosition = 2, getFontSize = 16, getTimestamp = 3\<rparr>))) 7 =
     Inr \<lparr>getContent = ''abc'', getCursorPosition = 2, getFontSize = 16, getTimestamp = 7\<rparr>"
proof -
  let ?ed = "\<lparr>content = ''Hello'', cursorPosition = 5, fontSize = 12\<rparr>"
  let ?s = "\<lparr>getContent = ''Hello'', getCursorPosition = 5, getFontSize = 12, getTimestamp = 7\<rparr>"
  let ?c = "\<lparr>getContent = ''abc'', getCursorPosition = 2, getFontSize = 16, getTimestamp = 3\<rparr>"
  have i5: "isInteger 5" using isInteger_of_nat [of 5] by simp
  have i12: "isInteger 12" using isInteger_of_nat [of 12] by simp
  have i2: "isInteger 2" using isInteger_of_nat [of 2] by simp
  have i16: "isInteger 16" using isInteger_of_nat [of 16] by simp
  have mk: "createSnapshot_v ?ed 7 = Inr ?s"
    using i5 i12 by (simp add: createSnapshot_v_def new_EditorSnapshot_v_def)
  have mc: "new_EditorSnapshot_v ''abc'' 2 16 3 = Inr ?c"
    using i2 i16 by (simp add: new_EditorSnapshot_v_def)
  show ?thesis
    using mk mc snapshot_restore_inverse [of ?ed 7 ?c ?s "''abc''" 2 16 3]
    by simp
qed

end
